theory Spec2Isabelle
  imports Main "HOL-Library.Sublist"
begin

section \<open>Python values, exceptions and string helpers\<close>

text \<open>
  Strings are \<open>char list\<close>. The two characters that matter below and cannot be written
  inside a string literal are the backslash \<open>CHR 0x5C\<close> and the line feed \<open>CHR 0x0A\<close>.

  Every exception the modelled code can meet is a subclass of Python's \<open>Exception\<close>:
  \<open>OSError\<close> (from \<open>open\<close>), \<open>ValueError\<close> (raised by \<open>create_embedding\<close>, and by the
  tokenizer on disallowed special tokens), \<open>UnexpectedResponse\<close> of the Qdrant client
  (with the HTTP status code it carries), and \<open>RuntimeError\<close> standing for any other
  \<open>Exception\<close>. A computation that may raise returns \<open>py_exception + 'a\<close>, with \<open>Inl\<close>
  the exception raised.
\<close>

datatype py_exception =
    OSError string
  | ValueError string
  | UnexpectedResponse nat
  | RuntimeError string

text \<open>The values a metadata dictionary or a JSON document can hold (floats left out).\<close>

datatype pyval =
    PStr string
  | PInt int
  | PList "pyval list"
  | PDict "(string \<times> pyval) list"

text \<open>\<^verbatim>\<open>sep.join(xs)\<close>\<close>

fun join :: "string \<Rightarrow> string list \<Rightarrow> string" where
  "join sep [] = []"
| "join sep [x] = x"
| "join sep (x # y # ys) = x @ sep @ join sep (y # ys)"

text \<open>\<^verbatim>\<open>str(n)\<close> for an integer, as an f-string formats it.\<close>

fun str_nat :: "nat \<Rightarrow> string" where
  "str_nat n =
     (if n < 10 then [''0123456789'' ! n]
      else str_nat (n div 10) @ [''0123456789'' ! (n mod 10)])"

declare str_nat.simps [simp del]

definition str_int :: "int \<Rightarrow> string" where
  "str_int i = (if i < 0 then CHR ''-'' # str_nat (nat (- i)) else str_nat (nat i))"

text \<open>\<^verbatim>\<open>sub in s\<close> for strings: \<open>sub\<close> occurs in \<open>s\<close> as a contiguous substring.\<close>

fun str_contains :: "string \<Rightarrow> string \<Rightarrow> bool" where
  "str_contains [] sub = (sub = [])"
| "str_contains (c # cs) sub = (prefix sub (c # cs) \<or> str_contains cs sub)"

text \<open>\<^verbatim>\<open>s.split(sep)\<close> for a one-character separator.\<close>

fun split_on :: "char \<Rightarrow> string \<Rightarrow> string list" where
  "split_on sep [] = [[]]"
| "split_on sep (c # cs) =
     (if c = sep then [] # split_on sep cs
      else (case split_on sep cs of
              [] \<Rightarrow> [[c]]
            | w # ws \<Rightarrow> (c # w) # ws))"

section \<open>Paths\<close>

text \<open>
  A \<^verbatim>\<open>pathlib.Path\<close> is used by the loader through three observations only:
  \<^verbatim>\<open>.parts\<close>, \<^verbatim>\<open>.name\<close> and \<^verbatim>\<open>str(path)\<close>. The record holds them.
\<close>

record path =
  path_parts :: "string list"
  path_name :: string
  path_str :: string

text \<open>
  \<^verbatim>\<open>Path(s).name\<close> for a string \<open>s\<close> on a POSIX system: the last component that is neither
  empty nor \<^verbatim>\<open>.\<close>, or the empty string when there is none.
\<close>

definition pure_posix_name :: "string \<Rightarrow> string" where
  "pure_posix_name s =
     (case rev (filter (\<lambda>x. x \<noteq> [] \<and> x \<noteq> ''.'') (split_on CHR ''/'' s)) of
        [] \<Rightarrow> []
      | x # _ \<Rightarrow> x)"

section \<open>File classifier (\<^verbatim>\<open>SimpleDirectoryLoader.identify_file_type\<close>)\<close>

text \<open>
  \<^verbatim>\<open>fnmatch.fnmatch(name, pattern)\<close> on a POSIX system (no case folding): the whole name must
  match the pattern, \<^verbatim>\<open>*\<close> matches any sequence of characters, \<^verbatim>\<open>?\<close> any single
  character, every other character itself. Bracket expressions are left out: no pattern of
  \<open>FILE_TYPE_PATTERNS\<close> contains a bracket.
\<close>

fun fnmatch :: "string \<Rightarrow> string \<Rightarrow> bool" where
  "fnmatch [] [] = True"
| "fnmatch (c # cs) [] = False"
| "fnmatch [] (p # ps) = (p = CHR ''*'' \<and> fnmatch [] ps)"
| "fnmatch (c # cs) (p # ps) =
     (if p = CHR ''*'' then fnmatch (c # cs) ps \<or> fnmatch cs (p # ps)
      else if p = CHR ''?'' then fnmatch cs ps
      else p = c \<and> fnmatch cs ps)"

text \<open>The dictionary keeps its declaration order, so it is an association list.\<close>

definition FILE_TYPE_PATTERNS :: "(string \<times> string list) list" where
  "FILE_TYPE_PATTERNS =
    [(''csharp'', [''*.cs'']),
     (''project'', [''*.csproj'', ''*.sln'']),
     (''config'', [''*.json'', ''*.xml'', ''*.yml'', ''*.yaml'', ''appsettings*.json'']),
     (''documentation'', [''*.md'', ''*.rst'', ''*.txt'']),
     (''web'', [''*.html'', ''*.css'', ''*.js'', ''*.ts'']),
     (''test'', [''*test*.cs'', ''*Test*.cs'', ''*Tests*.cs'']),
     (''migration'', [''*Migration*.cs'', ''*migration*.cs''])]"

text \<open>
  The two nested loops of \<^verbatim>\<open>identify_file_type\<close>: the first category with a matching
  pattern is returned, \<^verbatim>\<open>'other'\<close> after the loops.
\<close>

fun first_matching_type :: "string \<Rightarrow> (string \<times> string list) list \<Rightarrow> string" where
  "first_matching_type file_name [] = ''other''"
| "first_matching_type file_name ((file_type, patterns) # rest) =
     (if list_ex (fnmatch file_name) patterns then file_type
      else first_matching_type file_name rest)"

definition identify_file_type :: "path \<Rightarrow> string" where
  "identify_file_type file_path =
     first_matching_type (path_name file_path) FILE_TYPE_PATTERNS"

text \<open>The categories of the specification.\<close>

definition categories :: "string list" where
  "categories = [''csharp'', ''project'', ''config'', ''documentation'', ''web'',
                 ''test'', ''migration'', ''other'']"

text \<open>A pattern without wildcard characters.\<close>

definition literal :: "string \<Rightarrow> bool" where
  "literal l = (\<forall>c\<in>set l. c \<noteq> CHR ''*'' \<and> c \<noteq> CHR ''?'')"

section \<open>Metadata builder (\<^verbatim>\<open>SimpleDirectoryLoader.create_enhanced_metadata\<close>)\<close>

record DocumentMetadata =
  source :: string
  file_type :: string
  token_count :: int
  chunk_index :: int
  total_chunks :: int

text \<open>
  What the loader takes from outside: reading a file as text
  (\<^verbatim>\<open>open(file_path, 'r', encoding="utf-8", errors='replace')\<close> and \<^verbatim>\<open>f.read()\<close>), the
  tokenizer's \<^verbatim>\<open>encode\<close>, and \<^verbatim>\<open>split_text\<close> of the \<^verbatim>\<open>RecursiveCharacterTextSplitter\<close> built
  from a chunk size and a chunk overlap. Each of them may raise.
\<close>

record loader_env =
  read_text :: "path \<Rightarrow> py_exception + string"
  encode :: "string \<Rightarrow> py_exception + nat list"
  split_text :: "nat \<Rightarrow> nat \<Rightarrow> string \<Rightarrow> py_exception + string list"

text \<open>
  \<^verbatim>\<open>next(i for i, part in enumerate(path_parts) if 'CleanArchitecture' in part)\<close>:
  the first index whose element satisfies the test; \<open>None\<close> is \<^verbatim>\<open>StopIteration\<close>.
\<close>

fun first_index :: "('a \<Rightarrow> bool) \<Rightarrow> 'a list \<Rightarrow> nat option" where
  "first_index P [] = None"
| "first_index P (x # xs) =
     (if P x then Some 0 else map_option Suc (first_index P xs))"

definition root_marker :: string where
  "root_marker = ''CleanArchitecture''"

text \<open>The \<^verbatim>\<open>try\<close>/\<^verbatim>\<open>except StopIteration\<close> block that computes \<^verbatim>\<open>source_path\<close>.\<close>

definition source_path :: "path \<Rightarrow> string" where
  "source_path file_path =
     (case first_index (\<lambda>part. str_contains part root_marker) (path_parts file_path) of
        Some clean_arch_index \<Rightarrow>
          join [CHR 0x5C] (drop clean_arch_index (path_parts file_path))
      | None \<Rightarrow> path_str file_path)"

definition create_enhanced_metadata ::
  "loader_env \<Rightarrow> path \<Rightarrow> string \<Rightarrow> int \<Rightarrow> int \<Rightarrow> py_exception + DocumentMetadata" where
  "create_enhanced_metadata env file_path content chunk_idx chunk_total =
     (case encode env content of
        Inl e \<Rightarrow> Inl e
      | Inr tokens \<Rightarrow>
          Inr \<lparr>source = source_path file_path,
               file_type = identify_file_type file_path,
               token_count = int (length tokens),
               chunk_index = chunk_idx,
               total_chunks = chunk_total\<rparr>)"

section \<open>Chunk splitter and contextual prefix\<close>

definition chunk_content :: "loader_env \<Rightarrow> string \<Rightarrow> nat \<Rightarrow> nat \<Rightarrow> py_exception + string list" where
  "chunk_content env content max_tokens overlap_tokens =
     split_text env max_tokens overlap_tokens content"

text \<open>
  The prefix ends with the text of the f-string after the closing bracket. The source writes it
  \<^verbatim>\<open>]\\n\\n\<close>: each \<^verbatim>\<open>\\\<close> is an escaped backslash, so the four characters are
  backslash, \<^verbatim>\<open>n\<close>, backslash, \<^verbatim>\<open>n\<close>.
\<close>

definition add_contextual_prefix :: "string \<Rightarrow> DocumentMetadata \<Rightarrow> string" where
  "add_contextual_prefix content md =
     (let context_parts =
            [''File: '' @ pure_posix_name (source md), ''Type: '' @ file_type md]
            @ (if total_chunks md > 1
               then [''Part '' @ str_int (chunk_index md + 1) @ '' of '' @ str_int (total_chunks md)]
               else []);
          context_prefix =
            ''['' @ join '' | '' context_parts @ '']'' @ [CHR 0x5C, CHR ''n'', CHR 0x5C, CHR ''n'']
      in context_prefix @ content)"

section \<open>File processor (\<^verbatim>\<open>SimpleDirectoryLoader.process_file\<close>)\<close>

text \<open>A LangChain \<^verbatim>\<open>Document\<close>; its metadata is the dictionary \<^verbatim>\<open>asdict(metadata)\<close>.\<close>

record document =
  page_content :: string
  metadata :: "(string \<times> pyval) list"

definition asdict :: "DocumentMetadata \<Rightarrow> (string \<times> pyval) list" where
  "asdict md =
     [(''source'', PStr (source md)),
      (''file_type'', PStr (file_type md)),
      (''token_count'', PInt (token_count md)),
      (''chunk_index'', PInt (chunk_index md)),
      (''total_chunks'', PInt (total_chunks md))]"

definition load_file_content :: "loader_env \<Rightarrow> path \<Rightarrow> string option" where
  "load_file_content env file_path =
     (case read_text env file_path of Inl e \<Rightarrow> None | Inr s \<Rightarrow> Some s)"

definition enumerate :: "'a list \<Rightarrow> (nat \<times> 'a) list" where
  "enumerate xs = zip [0..<length xs] xs"

text \<open>
  The \<^verbatim>\<open>for i, chunk in enumerate(chunks)\<close> loop; \<open>documents\<close> is the list built so far and
  \<open>n\<close> is \<^verbatim>\<open>len(chunks)\<close>. An exception of the tokenizer leaves the loop.
\<close>

fun process_chunks ::
  "loader_env \<Rightarrow> path \<Rightarrow> nat \<Rightarrow> (nat \<times> string) list \<Rightarrow> document list
   \<Rightarrow> py_exception + document list" where
  "process_chunks env file_path n [] documents = Inr documents"
| "process_chunks env file_path n ((i, chunk) # rest) documents =
     (case create_enhanced_metadata env file_path chunk (int i) (int n) of
        Inl e \<Rightarrow> Inl e
      | Inr md \<Rightarrow>
          process_chunks env file_path n rest
            (documents @ [\<lparr>page_content = add_contextual_prefix chunk md,
                            metadata = asdict md\<rparr>]))"

text \<open>The body of the \<^verbatim>\<open>try\<close> block.\<close>

definition process_file_body :: "loader_env \<Rightarrow> path \<Rightarrow> py_exception + document list" where
  "process_file_body env file_path =
     (case load_file_content env file_path of
        None \<Rightarrow> Inr []
      | Some content \<Rightarrow>
          if content = [] then Inr []
          else (case chunk_content env content 1000 100 of
                  Inl e \<Rightarrow> Inl e
                | Inr chunks \<Rightarrow>
                    process_chunks env file_path (length chunks) (enumerate chunks) []))"

text \<open>
  \<^verbatim>\<open>except Exception\<close> handles every \<open>py_exception\<close> and returns the empty list. The result
  type keeps the exception side, so that "nothing is raised" is a statement about the value.
\<close>

definition process_file :: "loader_env \<Rightarrow> path \<Rightarrow> py_exception + document list" where
  "process_file env file_path =
     (case process_file_body env file_path of
        Inl e \<Rightarrow> Inr []
      | Inr documents \<Rightarrow> Inr documents)"

section \<open>Export (\<^verbatim>\<open>CleanArchitectureDocumentLoader.export_documents\<close>)\<close>

text \<open>
  \<^verbatim>\<open>json.dumps\<close> with \<^verbatim>\<open>ensure_ascii=False\<close>. A string is written between double quotes with
  the backslash, the double quote and the control characters below \<open>0x20\<close> escaped; every
  other character is written as it is.
\<close>

definition hex_digit :: "nat \<Rightarrow> char" where
  "hex_digit n = ''0123456789abcdef'' ! n"

definition escape_char :: "char \<Rightarrow> string" where
  "escape_char c =
     (if c = CHR 0x5C then [CHR 0x5C, CHR 0x5C]
      else if c = CHR 0x22 then [CHR 0x5C, CHR 0x22]
      else if c = CHR 0x08 then [CHR 0x5C, CHR ''b'']
      else if c = CHR 0x0C then [CHR 0x5C, CHR ''f'']
      else if c = CHR 0x0A then [CHR 0x5C, CHR ''n'']
      else if c = CHR 0x0D then [CHR 0x5C, CHR ''r'']
      else if c = CHR 0x09 then [CHR 0x5C, CHR ''t'']
      else if (of_char c :: nat) < 0x20
        then [CHR 0x5C, CHR ''u'', CHR ''0'', CHR ''0'',
              hex_digit (of_char c div 16), hex_digit (of_char c mod 16)]
      else [c])"

definition encode_basestring :: "string \<Rightarrow> string" where
  "encode_basestring s = CHR 0x22 # concat (map escape_char s) @ [CHR 0x22]"

text \<open>Without \<^verbatim>\<open>indent\<close> the separators are \<^verbatim>\<open>', '\<close> and \<^verbatim>\<open>': '\<close>.\<close>

fun dumps :: "pyval \<Rightarrow> string" where
  "dumps (PStr s) = encode_basestring s"
| "dumps (PInt i) = str_int i"
| "dumps (PList xs) =
     (if xs = [] then ''[]'' else ''['' @ join '', '' (map dumps xs) @ '']'')"
| "dumps (PDict kvs) =
     (if kvs = [] then ''{}''
      else ''{'' @ join '', '' (map (\<lambda>kv. encode_basestring (fst kv) @ '': '' @ dumps (snd kv)) kvs)
           @ ''}'')"

text \<open>
  With \<^verbatim>\<open>indent=k\<close> every item starts on a new line, indented by \<open>k\<close> spaces per nesting
  level; the item separator is \<^verbatim>\<open>','\<close> and the closing bracket is on a line of its own.
\<close>

definition newline_indent :: "nat \<Rightarrow> nat \<Rightarrow> string" where
  "newline_indent k level = CHR 0x0A # replicate (k * level) CHR '' ''"

fun dumps_indent :: "nat \<Rightarrow> nat \<Rightarrow> pyval \<Rightarrow> string" where
  "dumps_indent k level (PStr s) = encode_basestring s"
| "dumps_indent k level (PInt i) = str_int i"
| "dumps_indent k level (PList xs) =
     (if xs = [] then ''[]''
      else ''['' @ newline_indent k (Suc level)
           @ join ('','' @ newline_indent k (Suc level)) (map (dumps_indent k (Suc level)) xs)
           @ newline_indent k level @ '']'')"
| "dumps_indent k level (PDict kvs) =
     (if kvs = [] then ''{}''
      else ''{'' @ newline_indent k (Suc level)
           @ join ('','' @ newline_indent k (Suc level))
               (map (\<lambda>kv. encode_basestring (fst kv) @ '': '' @ dumps_indent k (Suc level) (snd kv)) kvs)
           @ newline_indent k level @ ''}'')"

text \<open>The dictionary written for one document.\<close>

definition doc_data :: "document \<Rightarrow> pyval" where
  "doc_data doc =
     PDict [(''page_content'', PStr (page_content doc)), (''metadata'', PDict (metadata doc))]"

text \<open>
  \<open>export_documents\<close> gives the text written to \<^verbatim>\<open>output_path\<close>, and \<open>None\<close> when the format
  is neither \<^verbatim>\<open>'json'\<close> nor \<^verbatim>\<open>'jsonl'\<close> and no file is opened. In the \<^verbatim>\<open>'jsonl'\<close> branch
  the source appends \<^verbatim>\<open>'\\n'\<close> to every record: an escaped backslash followed by \<^verbatim>\<open>n\<close>.
\<close>

definition export_documents :: "document list \<Rightarrow> string \<Rightarrow> string option" where
  "export_documents documents format =
     (if format = ''json''
        then Some (dumps_indent 2 0 (PList (map doc_data documents)))
      else if format = ''jsonl''
        then Some (concat (map (\<lambda>doc. dumps (doc_data doc) @ [CHR 0x5C, CHR ''n'']) documents))
      else None)"

text \<open>\<^verbatim>\<open>text.splitlines()\<close> restricted to the line feed: the lines of a text file.\<close>

definition file_lines :: "string \<Rightarrow> string list" where
  "file_lines s =
     (let ls = split_on (CHR 0x0A) s in if last ls = [] then butlast ls else ls)"

section \<open>Vector store manager (\<^verbatim>\<open>VectorDBManager\<close>)\<close>

text \<open>
  A Qdrant point; the embedding vector is a list of floats in the source and an opaque
  value here. A payload is a dictionary, a map from keys to values.
\<close>

record 'vec point =
  point_id :: string
  vector :: 'vec
  payload :: "string \<rightharpoonup> pyval"

datatype distance = COSINE | EUCLID | DOT | MANHATTAN

text \<open>
  The three calls the manager makes on the Qdrant client, as functions on the state \<open>'db\<close>
  of the remote store. A call that raises leaves the state as it was.
\<close>

record ('db, 'vec) qdrant_client =
  delete_collection :: "string \<Rightarrow> 'db \<Rightarrow> py_exception + 'db"
  create_collection :: "string \<Rightarrow> nat \<Rightarrow> distance \<Rightarrow> 'db \<Rightarrow> py_exception + 'db"
  upsert :: "string \<Rightarrow> 'vec point list \<Rightarrow> 'db \<Rightarrow> py_exception + 'db"

text \<open>
  \<open>embeddings_client\<close> is \<open>None\<close> when the credentials were missing; otherwise it is the
  call \<^verbatim>\<open>embeddings.create(input=..., model=...)\<close>, returning \<^verbatim>\<open>response.data\<close>.
\<close>

record ('db, 'vec) VectorDBManager =
  client :: "('db, 'vec) qdrant_client"
  collection_name :: string
  vector_size :: nat
  embeddings_client :: "(string list \<Rightarrow> string \<Rightarrow> py_exception + 'vec list) option"

datatype log_record =
    Deleted_existing_collection string
  | Error_deleting_collection py_exception
  | Created_new_collection string

datatype log_level = INFO | WARNING

fun level :: "log_record \<Rightarrow> log_level" where
  "level (Deleted_existing_collection name) = INFO"
| "level (Error_deleting_collection e) = WARNING"
| "level (Created_new_collection name) = INFO"


definition create_embedding ::
  "('db, 'vec) VectorDBManager \<Rightarrow> string \<Rightarrow> string \<Rightarrow> py_exception + 'vec" where
  "create_embedding self text model =
     (case embeddings_client self of
        None \<Rightarrow>
          Inl (ValueError ''Azure AI Embeddings Client not initialized. Check your credentials.'')
      | Some create \<Rightarrow>
          (case create [text] model of
             Inl e \<Rightarrow> Inl e
           | Inr data \<Rightarrow>
               (case data of
                  [] \<Rightarrow> Inl (ValueError ''No embedding data received from Azure AI'')
                | embedding # _ \<Rightarrow> Inr embedding)))"

text \<open>
  \<open>add_document\<close> returns the value returned to the caller together with the new state of
  the store, or the exception raised by \<open>create_embedding\<close> or by \<^verbatim>\<open>upsert\<close>.
\<close>

definition add_document ::
  "('db, 'vec) VectorDBManager \<Rightarrow> string \<Rightarrow> string \<Rightarrow> 'vec option
   \<Rightarrow> (string \<rightharpoonup> pyval) option \<Rightarrow> 'db \<Rightarrow> py_exception + (string \<times> 'db)" where
  "add_document self doc_id text embedding md_opt db =
     (let md = (case md_opt of None \<Rightarrow> Map.empty | Some m \<Rightarrow> m) in
      case (case embedding of
              None \<Rightarrow> create_embedding self text ''text-embedding-3-large''
            | Some v \<Rightarrow> Inr v) of
        Inl e \<Rightarrow> Inl e
      | Inr emb \<Rightarrow>
          (let full_metadata = md(''document'' \<mapsto> PStr text);
               pt = \<lparr>point_id = doc_id, vector = emb, payload = full_metadata\<rparr>
           in case upsert (client self) (collection_name self) [pt] db of
                Inl e \<Rightarrow> Inl e
              | Inr db' \<Rightarrow> Inr (doc_id, db')))"

text \<open>
  Modelled from the spec: the vector store behind the Qdrant client, which is an external
  service. A store maps collection names to collections, a collection maps point ids to
  points; \<^verbatim>\<open>upsert\<close> "inserts or replaces a record", deleting or writing to a collection
  that does not exist is answered with an unexpected response, as is creating one that exists.
\<close>

type_synonym 'vec store = "string \<rightharpoonup> (string \<rightharpoonup> 'vec point)"

definition store_client :: "('vec store, 'vec) qdrant_client" where
  "store_client =
     \<lparr>delete_collection = (\<lambda>name db.
          if db name = None then Inl (UnexpectedResponse 404) else Inr (db(name := None))),
      create_collection = (\<lambda>name size dist db.
          if db name = None then Inr (db(name \<mapsto> Map.empty)) else Inl (UnexpectedResponse 409)),
      upsert = (\<lambda>name points db.
          case db name of
            None \<Rightarrow> Inl (UnexpectedResponse 404)
          | Some coll \<Rightarrow> Inr (db(name \<mapsto> fold (\<lambda>p c. c(point_id p \<mapsto> p)) points coll)))\<rparr>"

section \<open>Classifier: properties\<close>

lemma fnmatch_star:
  "fnmatch n (CHR ''*'' # ps) = (\<exists>k\<le>length n. fnmatch (drop k n) ps)"
proof (induction n)
  case Nil
  then show ?case by simp
next
  case (Cons c cs)
  have "(\<exists>k\<le>length (c # cs). fnmatch (drop k (c # cs)) ps)
        = (fnmatch (c # cs) ps \<or> (\<exists>k\<le>length cs. fnmatch (drop k cs) ps))"
    (is "?L = ?R")
  proof
    assume ?L
    then obtain k where k: "k \<le> length (c # cs)" "fnmatch (drop k (c # cs)) ps" by blast
    show ?R
    proof (cases k)
      case 0 with k show ?thesis by simp
    next
      case (Suc j) with k show ?thesis by auto
    qed
  next
    assume ?R
    then show ?L
    proof
      assume "fnmatch (c # cs) ps"
      then have "fnmatch (drop 0 (c # cs)) ps" by simp
      then show ?L by blast
    next
      assume "\<exists>k\<le>length cs. fnmatch (drop k cs) ps"
      then obtain k where "k \<le> length cs" "fnmatch (drop k cs) ps" by blast
      then have "Suc k \<le> length (c # cs)" "fnmatch (drop (Suc k) (c # cs)) ps" by simp_all
      then show ?L by blast
    qed
  qed
  with Cons show ?case by simp
qed

lemma fnmatch_literal: "literal l \<Longrightarrow> fnmatch n l = (n = l)"
proof (induction l arbitrary: n)
  case Nil
  then show ?case by (cases n) simp_all
next
  case (Cons p ps)
  then show ?case by (cases n) (auto simp: literal_def)
qed

lemma suffix_fnmatch_star:
  "literal l \<Longrightarrow> suffix l n \<Longrightarrow> fnmatch n (CHR ''*'' # l)"
  unfolding fnmatch_star suffix_def
  by (auto simp: fnmatch_literal intro!: exI[of _ "length n - length l"])

lemma fnmatch_suffix:
  "literal l \<Longrightarrow> fnmatch n (ps @ l) \<Longrightarrow> suffix l n"
proof (induction ps arbitrary: n)
  case Nil
  then show ?case by (simp add: fnmatch_literal)
next
  case (Cons p ps)
  show ?case
  proof (cases "p = CHR ''*''")
    case True
    with Cons.prems obtain k where "fnmatch (drop k n) (ps @ l)"
      by (auto simp: fnmatch_star)
    with Cons have "suffix l (drop k n)" by blast
    moreover have "suffix (drop k n) n" by (rule suffix_drop)
    ultimately show ?thesis by (rule suffix_order.trans)
  next
    case False
    with Cons.prems obtain c cs where n: "n = c # cs" and m: "fnmatch cs (ps @ l)"
      by (cases n) (simp_all split: if_splits)
    from Cons.IH[OF Cons.prems(1) m] show ?thesis
      by (simp add: n suffix_Cons)
  qed
qed

lemma first_matching_type_range:
  "first_matching_type n tbl \<in> insert ''other'' (fst ` set tbl)"
  by (induction n tbl rule: first_matching_type.induct) auto

lemma first_matching_type_other:
  "''other'' \<notin> fst ` set tbl \<Longrightarrow>
   (first_matching_type n tbl = ''other'') = (\<forall>(c, ps)\<in>set tbl. \<forall>p\<in>set ps. \<not> fnmatch n p)"
proof (induction n tbl rule: first_matching_type.induct)
  case (1 file_name)
  then show ?case by simp
next
  case (2 file_name file_type patterns rest)
  then show ?case by (auto simp: list_ex_iff)
qed

lemma first_matching_type_first:
  "\<forall>(c', ps')\<in>set pre. \<forall>p\<in>set ps'. \<not> fnmatch n p \<Longrightarrow>
   \<exists>p\<in>set ps. fnmatch n p \<Longrightarrow>
   first_matching_type n (pre @ (c, ps) # post) = c"
proof (induction pre)
  case Nil
  then show ?case by (simp add: list_ex_iff)
next
  case (Cons a pre)
  obtain c' ps' where a: "a = (c', ps')" by (cases a)
  with Cons show ?case by (auto simp: list_ex_iff)
qed

text \<open>
  Claim C2. For every file name, \<open>identify_file_type\<close> returns one category of the fixed set;
  it returns \<open>other\<close> exactly when no pattern of any category matches the name; and when a
  category has a matching pattern and no category declared before it has one, that category
  is returned, so the earliest declared matching category wins.
\<close>

theorem identify_file_type_first_match:
  "identify_file_type f \<in> set categories
   \<and> (identify_file_type f = ''other'' \<longleftrightarrow>
        (\<forall>(c, ps)\<in>set FILE_TYPE_PATTERNS. \<forall>p\<in>set ps. \<not> fnmatch (path_name f) p))
   \<and> (\<forall>pre c ps post.
        FILE_TYPE_PATTERNS = pre @ (c, ps) # post
        \<and> (\<exists>p\<in>set ps. fnmatch (path_name f) p)
        \<and> (\<forall>(c', ps')\<in>set pre. \<forall>p\<in>set ps'. \<not> fnmatch (path_name f) p)
        \<longrightarrow> identify_file_type f = c)"
proof (intro conjI allI impI)
  have "first_matching_type (path_name f) FILE_TYPE_PATTERNS
          \<in> insert ''other'' (fst ` set FILE_TYPE_PATTERNS)"
    by (rule first_matching_type_range)
  also have "insert ''other'' (fst ` set FILE_TYPE_PATTERNS) = set categories"
    by (auto simp: FILE_TYPE_PATTERNS_def categories_def)
  finally show "identify_file_type f \<in> set categories"
    by (simp add: identify_file_type_def)
next
  have "''other'' \<notin> fst ` set FILE_TYPE_PATTERNS"
    by (simp add: FILE_TYPE_PATTERNS_def)
  then show "identify_file_type f = ''other'' \<longleftrightarrow>
        (\<forall>(c, ps)\<in>set FILE_TYPE_PATTERNS. \<forall>p\<in>set ps. \<not> fnmatch (path_name f) p)"
    unfolding identify_file_type_def by (rule first_matching_type_other)
next
  fix pre c ps post
  assume a: "FILE_TYPE_PATTERNS = pre @ (c, ps) # post
        \<and> (\<exists>p\<in>set ps. fnmatch (path_name f) p)
        \<and> (\<forall>(c', ps')\<in>set pre. \<forall>p\<in>set ps'. \<not> fnmatch (path_name f) p)"
  then have e: "FILE_TYPE_PATTERNS = pre @ (c, ps) # post"
    and m: "\<exists>p\<in>set ps. fnmatch (path_name f) p"
    and n: "\<forall>(c', ps')\<in>set pre. \<forall>p\<in>set ps'. \<not> fnmatch (path_name f) p"
    by blast+
  from first_matching_type_first[OF n m, of c post] e
  show "identify_file_type f = c"
    by (simp add: identify_file_type_def)
qed

text \<open>
  Witness for C2: \<^verbatim>\<open>FooTests.cs\<close> matches patterns of \<open>csharp\<close> and of \<open>test\<close> and is
  classified \<open>csharp\<close>; \<^verbatim>\<open>Makefile\<close> matches nothing and is \<open>other\<close>.
\<close>

theorem identify_file_type_first_match_witness:
  "(\<exists>p\<in>set [''*test*.cs'', ''*Test*.cs'', ''*Tests*.cs'']. fnmatch ''FooTests.cs'' p)
   \<and> (\<exists>p\<in>set [''*.cs'']. fnmatch ''FooTests.cs'' p)
   \<and> identify_file_type \<lparr>path_parts = [''src'', ''FooTests.cs''],
        path_name = ''FooTests.cs'', path_str = ''src/FooTests.cs''\<rparr> = ''csharp''
   \<and> identify_file_type \<lparr>path_parts = [''Makefile''],
        path_name = ''Makefile'', path_str = ''Makefile''\<rparr> = ''other''"
proof -
  let ?f = "\<lparr>path_parts = [''src'', ''FooTests.cs''],
        path_name = ''FooTests.cs'', path_str = ''src/FooTests.cs''\<rparr>"
  let ?g = "\<lparr>path_parts = [''Makefile''], path_name = ''Makefile'', path_str = ''Makefile''\<rparr>"
  have m: "fnmatch ''FooTests.cs'' ''*.cs''" by simp
  have t: "fnmatch ''FooTests.cs'' ''*Tests*.cs''" by simp
  have tbl: "FILE_TYPE_PATTERNS = [] @ (''csharp'', [''*.cs'']) # tl FILE_TYPE_PATTERNS"
    by (simp add: FILE_TYPE_PATTERNS_def)
  have "identify_file_type ?f = ''csharp''"
    using identify_file_type_first_match[of ?f, THEN conjunct2, THEN conjunct2,
        rule_format, of "[]" "''csharp''" "[''*.cs'']" "tl FILE_TYPE_PATTERNS"] tbl m
    by simp
  moreover have "\<forall>(c, ps)\<in>set FILE_TYPE_PATTERNS. \<forall>p\<in>set ps. \<not> fnmatch ''Makefile'' p"
    by (simp add: FILE_TYPE_PATTERNS_def)
  then have "identify_file_type ?g = ''other''"
    using identify_file_type_first_match[of ?g] by simp
  ultimately show ?thesis using m t by simp
qed

text \<open>
  Claim C9. \<open>identify_file_type\<close> never returns \<open>test\<close> or \<open>migration\<close>: a name matching
  any pattern that \<open>FILE_TYPE_PATTERNS\<close> lists under these two categories also matches
  \<^verbatim>\<open>*.cs\<close> and is classified \<open>csharp\<close>.
\<close>

theorem test_migration_unreachable:
  "identify_file_type f \<noteq> ''test'' \<and> identify_file_type f \<noteq> ''migration''
   \<and> (\<forall>(c, ps)\<in>set FILE_TYPE_PATTERNS. c = ''test'' \<or> c = ''migration'' \<longrightarrow>
        (\<forall>p\<in>set ps. fnmatch (path_name f) p \<longrightarrow>
          fnmatch (path_name f) ''*.cs'' \<and> identify_file_type f = ''csharp''))"
proof -
  let ?n = "path_name f"
  have l: "literal ''.cs''" by (simp add: literal_def)
  have cs: "identify_file_type f = ''csharp''" if "fnmatch ?n ''*.cs''"
    using that by (simp add: identify_file_type_def FILE_TYPE_PATTERNS_def)
  have imp: "fnmatch ?n ''*.cs''"
    if p: "p \<in> set [''*test*.cs'', ''*Test*.cs'', ''*Tests*.cs'', ''*Migration*.cs'', ''*migration*.cs'']"
      and m: "fnmatch ?n p" for p
  proof -
    from p obtain ps where "p = ps @ ''.cs''" by auto
    with m l have "suffix ''.cs'' ?n" by (auto dest: fnmatch_suffix)
    with suffix_fnmatch_star[OF l, of ?n] show ?thesis by simp
  qed
  have no: "identify_file_type f \<noteq> c" if c: "c = ''test'' \<or> c = ''migration''" for c
  proof (cases "fnmatch ?n ''*.cs''")
    case True
    with cs c show ?thesis by auto
  next
    case False
    with imp have "\<forall>p\<in>set [''*test*.cs'', ''*Test*.cs'', ''*Tests*.cs'', ''*Migration*.cs'', ''*migration*.cs'']. \<not> fnmatch ?n p"
      by blast
    then have "\<not> list_ex (fnmatch ?n) [''*test*.cs'', ''*Test*.cs'', ''*Tests*.cs'']"
      and "\<not> list_ex (fnmatch ?n) [''*Migration*.cs'', ''*migration*.cs'']"
      by (simp_all add: list_ex_iff)
    then have "identify_file_type f \<in> set [''csharp'', ''project'', ''config'', ''documentation'', ''web'', ''other'']"
      by (simp add: identify_file_type_def FILE_TYPE_PATTERNS_def)
    with c show ?thesis by auto
  qed
  have tbl: "\<forall>(c, ps)\<in>set FILE_TYPE_PATTERNS. c = ''test'' \<or> c = ''migration'' \<longrightarrow>
        set ps \<subseteq> set [''*test*.cs'', ''*Test*.cs'', ''*Tests*.cs'', ''*Migration*.cs'', ''*migration*.cs'']"
    by (simp add: FILE_TYPE_PATTERNS_def)
  have "\<forall>(c, ps)\<in>set FILE_TYPE_PATTERNS. c = ''test'' \<or> c = ''migration'' \<longrightarrow>
        (\<forall>p\<in>set ps. fnmatch ?n p \<longrightarrow> fnmatch ?n ''*.cs'' \<and> identify_file_type f = ''csharp'')"
  proof (intro ballI, clarify)
    fix c ps p
    assume "(c, ps) \<in> set FILE_TYPE_PATTERNS" "c = ''test'' \<or> c = ''migration''"
      "p \<in> set ps" "fnmatch ?n p"
    with tbl have "p \<in> set [''*test*.cs'', ''*Test*.cs'', ''*Tests*.cs'', ''*Migration*.cs'', ''*migration*.cs'']"
      by blast
    from imp[OF this \<open>fnmatch ?n p\<close>] have "fnmatch ?n ''*.cs''" .
    with cs show "fnmatch ?n ''*.cs'' \<and> identify_file_type f = ''csharp''" by blast
  qed
  with no[of "''test''"] no[of "''migration''"] show ?thesis by blast
qed

text \<open>Witness for C9: a name matching a pattern of the \<open>test\<close> category.\<close>

theorem test_migration_unreachable_witness:
  "(''test'', [''*test*.cs'', ''*Test*.cs'', ''*Tests*.cs'']) \<in> set FILE_TYPE_PATTERNS
   \<and> fnmatch ''UserMigrationTest.cs'' ''*Test*.cs''
   \<and> fnmatch ''UserMigrationTest.cs'' ''*.cs''
   \<and> identify_file_type \<lparr>path_parts = [''UserMigrationTest.cs''],
        path_name = ''UserMigrationTest.cs'', path_str = ''UserMigrationTest.cs''\<rparr> = ''csharp''"
proof -
  let ?f = "\<lparr>path_parts = [''UserMigrationTest.cs''],
        path_name = ''UserMigrationTest.cs'', path_str = ''UserMigrationTest.cs''\<rparr>"
  have e: "(''test'', [''*test*.cs'', ''*Test*.cs'', ''*Tests*.cs'']) \<in> set FILE_TYPE_PATTERNS"
    by (simp add: FILE_TYPE_PATTERNS_def)
  have t: "fnmatch (path_name ?f) ''*Test*.cs''" by simp
  from test_migration_unreachable[of ?f, THEN conjunct2, THEN conjunct2, rule_format, OF e]
  have "\<forall>p\<in>set [''*test*.cs'', ''*Test*.cs'', ''*Tests*.cs'']. fnmatch (path_name ?f) p \<longrightarrow>
          fnmatch (path_name ?f) ''*.cs'' \<and> identify_file_type ?f = ''csharp''"
    by simp
  then have "fnmatch (path_name ?f) ''*Test*.cs'' \<longrightarrow>
          fnmatch (path_name ?f) ''*.cs'' \<and> identify_file_type ?f = ''csharp''"
    by simp
  with t have "fnmatch (path_name ?f) ''*.cs'' \<and> identify_file_type ?f = ''csharp''"
    by blast
  with e t show ?thesis by simp
qed

section \<open>Metadata builder: properties\<close>

lemma str_contains_iff: "str_contains s sub = (\<exists>a b. s = a @ sub @ b)"
proof (induction s)
  case Nil
  then show ?case by auto
next
  case (Cons c cs)
  show ?case
  proof
    assume "str_contains (c # cs) sub"
    then consider "prefix sub (c # cs)" | "str_contains cs sub" by auto
    then show "\<exists>a b. c # cs = a @ sub @ b"
    proof cases
      case 1
      then obtain b where "c # cs = sub @ b" by (auto simp: prefix_def)
      then have "c # cs = [] @ sub @ b" by simp
      then show ?thesis by blast
    next
      case 2
      with Cons obtain a b where "cs = a @ sub @ b" by blast
      then have "c # cs = (c # a) @ sub @ b" by simp
      then show ?thesis by blast
    qed
  next
    assume "\<exists>a b. c # cs = a @ sub @ b"
    then obtain a b where ab: "c # cs = a @ sub @ b" by blast
    show "str_contains (c # cs) sub"
    proof (cases a)
      case Nil
      with ab have "prefix sub (c # cs)" by (simp add: prefix_def)
      then show ?thesis by simp
    next
      case (Cons x a')
      with ab have "cs = a' @ sub @ b" by simp
      with Cons.IH have "str_contains cs sub" by blast
      then show ?thesis by simp
    qed
  qed
qed

lemma first_index_None: "(first_index P xs = None) = (\<forall>x\<in>set xs. \<not> P x)"
  by (induction xs) auto

lemma first_index_Some:
  "\<forall>x\<in>set pre. \<not> P x \<Longrightarrow> P c \<Longrightarrow> first_index P (pre @ c # post) = Some (length pre)"
  by (induction pre) auto

lemma source_path_no_marker:
  "\<forall>part\<in>set (path_parts f). \<not> (\<exists>a b. part = a @ root_marker @ b) \<Longrightarrow>
   source_path f = path_str f"
proof -
  assume "\<forall>part\<in>set (path_parts f). \<not> (\<exists>a b. part = a @ root_marker @ b)"
  then have "first_index (\<lambda>part. str_contains part root_marker) (path_parts f) = None"
    by (simp add: first_index_None str_contains_iff)
  then show ?thesis by (simp add: source_path_def)
qed

lemma source_path_marker:
  "path_parts f = pre @ c # post \<Longrightarrow>
   \<forall>part\<in>set pre. \<not> (\<exists>a b. part = a @ root_marker @ b) \<Longrightarrow>
   \<exists>a b. c = a @ root_marker @ b \<Longrightarrow>
   source_path f = join [CHR 0x5C] (c # post)"
proof -
  assume p: "path_parts f = pre @ c # post"
    and n: "\<forall>part\<in>set pre. \<not> (\<exists>a b. part = a @ root_marker @ b)"
    and m: "\<exists>a b. c = a @ root_marker @ b"
  from n have n': "\<forall>x\<in>set pre. \<not> str_contains x root_marker"
    by (simp add: str_contains_iff)
  from m have m': "str_contains c root_marker"
    by (simp add: str_contains_iff)
  have "first_index (\<lambda>part. str_contains part root_marker) (pre @ c # post) = Some (length pre)"
    using n' m' by (rule first_index_Some)
  with p show ?thesis by (simp add: source_path_def)
qed

lemma create_enhanced_metadata_source:
  "create_enhanced_metadata env f content i n = Inr md \<Longrightarrow> source md = source_path f"
  by (auto simp: create_enhanced_metadata_def split: sum.splits)

text \<open>
  Claim C6. When \<open>create_enhanced_metadata\<close> builds a metadata record for a path, its
  \<open>source\<close> is the full path string if no component of the path contains
  \<^verbatim>\<open>CleanArchitecture\<close>; otherwise it is the components from the first one containing
  \<^verbatim>\<open>CleanArchitecture\<close> onward, joined with a backslash. The source depends on the path
  only: any two calls on the same path build the same source.
\<close>

theorem source_canonical:
  assumes "create_enhanced_metadata env f content i n = Inr md"
  shows "((\<forall>part\<in>set (path_parts f). \<not> (\<exists>a b. part = a @ ''CleanArchitecture'' @ b))
            \<longrightarrow> source md = path_str f)
       \<and> (\<forall>pre c post.
            path_parts f = pre @ c # post
            \<and> (\<forall>part\<in>set pre. \<not> (\<exists>a b. part = a @ ''CleanArchitecture'' @ b))
            \<and> (\<exists>a b. c = a @ ''CleanArchitecture'' @ b)
            \<longrightarrow> source md = join [CHR 0x5C] (c # post))
       \<and> (\<forall>env' content' i' n' md'.
            create_enhanced_metadata env' f content' i' n' = Inr md'
            \<longrightarrow> source md' = source md)"
proof (intro conjI allI impI)
  assume "\<forall>part\<in>set (path_parts f). \<not> (\<exists>a b. part = a @ ''CleanArchitecture'' @ b)"
  then have "source_path f = path_str f"
    using source_path_no_marker[of f] by (simp add: root_marker_def)
  with assms show "source md = path_str f"
    by (simp add: create_enhanced_metadata_source)
next
  fix pre c post
  assume a: "path_parts f = pre @ c # post
            \<and> (\<forall>part\<in>set pre. \<not> (\<exists>a b. part = a @ ''CleanArchitecture'' @ b))
            \<and> (\<exists>a b. c = a @ ''CleanArchitecture'' @ b)"
  then have "source_path f = join [CHR 0x5C] (c # post)"
    using source_path_marker[of f pre c post] by (simp add: root_marker_def)
  with assms show "source md = join [CHR 0x5C] (c # post)"
    by (simp add: create_enhanced_metadata_source)
next
  fix env' content' i' n' md'
  assume "create_enhanced_metadata env' f content' i' n' = Inr md'"
  then have "source md' = source_path f" by (rule create_enhanced_metadata_source)
  with assms show "source md' = source md"
    by (simp add: create_enhanced_metadata_source)
qed

text \<open>Witness for C6: a path below a \<^verbatim>\<open>CleanArchitecture-main\<close> directory.\<close>

theorem source_canonical_witness:
  "create_enhanced_metadata
      \<lparr>read_text = (\<lambda>p. Inr ''abcd''), encode = (\<lambda>s. Inr (map of_char s)),
        split_text = (\<lambda>size overlap s. Inr [take 2 s, drop 2 s])\<rparr>
      \<lparr>path_parts = [''/'', ''repo'', ''CleanArchitecture-main'', ''src'', ''Foo.cs''],
        path_name = ''Foo.cs'', path_str = ''/repo/CleanArchitecture-main/src/Foo.cs''\<rparr>
      ''ab'' 0 2
    = Inr \<lparr>source = ''CleanArchitecture-main'' @ [CHR 0x5C] @ ''src'' @ [CHR 0x5C] @ ''Foo.cs'',
           file_type = ''csharp'', token_count = 2, chunk_index = 0, total_chunks = 2\<rparr>
   \<and> source \<lparr>source = ''CleanArchitecture-main'' @ [CHR 0x5C] @ ''src'' @ [CHR 0x5C] @ ''Foo.cs'',
           file_type = ''csharp'', token_count = 2, chunk_index = 0, total_chunks = 2\<rparr>
      = join [CHR 0x5C] [''CleanArchitecture-main'', ''src'', ''Foo.cs'']"
proof -
  let ?env = "\<lparr>read_text = (\<lambda>p. Inr ''abcd''), encode = (\<lambda>s. Inr (map of_char s)),
        split_text = (\<lambda>size overlap s. Inr [take 2 s, drop 2 s])\<rparr>"
  let ?f = "\<lparr>path_parts = [''/'', ''repo'', ''CleanArchitecture-main'', ''src'', ''Foo.cs''],
        path_name = ''Foo.cs'', path_str = ''/repo/CleanArchitecture-main/src/Foo.cs''\<rparr>"
  let ?md = "\<lparr>source = ''CleanArchitecture-main'' @ [CHR 0x5C] @ ''src'' @ [CHR 0x5C] @ ''Foo.cs'',
           file_type = ''csharp'', token_count = 2, chunk_index = 0, total_chunks = 2\<rparr>"
  have e: "create_enhanced_metadata ?env ?f ''ab'' 0 2 = Inr ?md"
    by (simp add: create_enhanced_metadata_def source_path_def root_marker_def
        identify_file_type_def FILE_TYPE_PATTERNS_def)
  have p: "path_parts ?f = [''/'', ''repo''] @ ''CleanArchitecture-main'' # [''src'', ''Foo.cs'']"
    by simp
  have n: "\<forall>part\<in>set [''/'', ''repo'']. \<not> (\<exists>a b. part = a @ ''CleanArchitecture'' @ b)"
    by (simp add: str_contains_iff[symmetric])
  have m: "\<exists>a b. ''CleanArchitecture-main'' = a @ ''CleanArchitecture'' @ b"
    by (rule exI[of _ "[]"], rule exI[of _ "''-main''"]) simp
  from source_canonical[OF e, THEN conjunct2, THEN conjunct1, rule_format,
      of "[''/'', ''repo'']" "''CleanArchitecture-main''" "[''src'', ''Foo.cs'']"] p n m
  have "source ?md = join [CHR 0x5C] [''CleanArchitecture-main'', ''src'', ''Foo.cs'']"
    by blast
  with e show ?thesis by blast
qed


section \<open>File processor: properties\<close>

lemma process_chunks_meta:
  "process_chunks env f n ics acc = Inr docs \<Longrightarrow>
   map (\<lambda>d. (map_of (metadata d) ''chunk_index'', map_of (metadata d) ''total_chunks'')) docs
   = map (\<lambda>d. (map_of (metadata d) ''chunk_index'', map_of (metadata d) ''total_chunks'')) acc
     @ map (\<lambda>ic. (Some (PInt (int (fst ic))), Some (PInt (int n)))) ics"
proof (induction env f n ics acc rule: process_chunks.induct)
  case (1 env file_path n documents)
  then show ?case by simp
next
  case (2 env file_path n i chunk rest documents)
  from "2.prems" obtain md where
    md: "create_enhanced_metadata env file_path chunk (int i) (int n) = Inr md"
    and r: "process_chunks env file_path n rest
              (documents @ [\<lparr>page_content = add_contextual_prefix chunk md,
                              metadata = asdict md\<rparr>]) = Inr docs"
    by (auto split: sum.splits)
  from md have "chunk_index md = int i" "total_chunks md = int n"
    by (auto simp: create_enhanced_metadata_def split: sum.splits)
  then have "map_of (asdict md) ''chunk_index'' = Some (PInt (int i))"
    and "map_of (asdict md) ''total_chunks'' = Some (PInt (int n))"
    by (simp_all add: asdict_def)
  with "2.IH"[OF md r] show ?case by simp
qed

lemma process_chunks_raises:
  "(i, chunk) \<in> set ics \<Longrightarrow> encode env chunk = Inl e \<Longrightarrow>
   \<exists>e'. process_chunks env f n ics acc = Inl e'"
proof (induction env f n ics acc rule: process_chunks.induct)
  case (1 env file_path n documents)
  then show ?case by simp
next
  case (2 env file_path n j c rest documents)
  show ?case
  proof (cases "create_enhanced_metadata env file_path c (int j) (int n)")
    case (Inl a)
    then show ?thesis by simp
  next
    case (Inr md)
    then have "encode env c \<noteq> Inl e"
      by (auto simp: create_enhanced_metadata_def split: sum.splits)
    with "2.prems" have "(i, chunk) \<in> set rest" by auto
    from "2.IH"[OF Inr this "2.prems"(2)] Inr show ?thesis by simp
  qed
qed

lemma map_fst_enumerate: "map fst (enumerate xs) = [0..<length xs]"
  by (simp add: enumerate_def)

lemma set_enumerate: "c \<in> set xs \<Longrightarrow> \<exists>i. (i, c) \<in> set (enumerate xs)"
proof -
  assume "c \<in> set xs"
  then obtain i where "i < length xs" "xs ! i = c" by (auto simp: in_set_conv_nth)
  then have "(i, c) \<in> set (zip [0..<length xs] xs)"
    by (auto simp: in_set_zip intro!: exI[of _ i])
  then show ?thesis by (auto simp: enumerate_def)
qed

lemma process_file_body_meta:
  assumes "process_file_body env f = Inr docs"
  shows "map (\<lambda>d. (map_of (metadata d) ''chunk_index'', map_of (metadata d) ''total_chunks'')) docs
         = map (\<lambda>i. (Some (PInt (int i)), Some (PInt (int (length docs))))) [0..<length docs]"
proof (cases "docs = []")
  case True
  then show ?thesis by simp
next
  case False
  with assms obtain content chunks where
    c: "chunk_content env content 1000 100 = Inr chunks"
    and p: "process_chunks env f (length chunks) (enumerate chunks) [] = Inr docs"
    by (auto simp: process_file_body_def split: option.splits if_splits sum.splits)
  let ?m = "\<lambda>d. (map_of (metadata d) ''chunk_index'', map_of (metadata d) ''total_chunks'')"
  from process_chunks_meta[OF p]
  have eq: "map ?m docs
     = map (\<lambda>ic. (Some (PInt (int (fst ic))), Some (PInt (int (length chunks))))) (enumerate chunks)"
    by simp
  then have "length (map ?m docs) = length (enumerate chunks)" by simp
  then have len: "length docs = length chunks" by (simp add: enumerate_def)
  have "map (\<lambda>ic. (Some (PInt (int (fst ic))), Some (PInt (int (length chunks))))) (enumerate chunks)
        = map (\<lambda>i. (Some (PInt (int i)), Some (PInt (int (length chunks))))) (map fst (enumerate chunks))"
    by (simp add: comp_def)
  with eq len show ?thesis by (simp add: map_fst_enumerate)
qed

lemma process_file_cases:
  "process_file env f = Inr docs \<Longrightarrow> docs = [] \<or> process_file_body env f = Inr docs"
  by (auto simp: process_file_def split: sum.splits)

text \<open>
  Claim C3. When \<open>process_file\<close> yields \<open>N\<close> documents, their \<open>chunk_index\<close> entries are
  \<open>0, 1, ..., N - 1\<close> in output order, every \<open>total_chunks\<close> entry is \<open>N\<close>, and every
  \<open>chunk_index\<close> is below \<open>N\<close>.
\<close>

theorem chunk_index_range:
  assumes "process_file env f = Inr docs"
  shows "map (\<lambda>d. map_of (metadata d) ''chunk_index'') docs
           = map (\<lambda>i. Some (PInt (int i))) [0..<length docs]
       \<and> (\<forall>d\<in>set docs. map_of (metadata d) ''total_chunks'' = Some (PInt (int (length docs))))
       \<and> (\<forall>d\<in>set docs. \<exists>i. map_of (metadata d) ''chunk_index'' = Some (PInt i)
              \<and> 0 \<le> i \<and> i < int (length docs))"
proof -
  let ?m = "\<lambda>d. (map_of (metadata d) ''chunk_index'', map_of (metadata d) ''total_chunks'')"
  have eq: "map ?m docs = map (\<lambda>i. (Some (PInt (int i)), Some (PInt (int (length docs))))) [0..<length docs]"
  proof (cases "docs = []")
    case True
    then show ?thesis by simp
  next
    case False
    with process_file_cases[OF assms] have "process_file_body env f = Inr docs" by simp
    then show ?thesis by (rule process_file_body_meta)
  qed
  have nth: "?m (docs ! j) = (Some (PInt (int j)), Some (PInt (int (length docs))))"
    if "j < length docs" for j
  proof -
    from that have "?m (docs ! j) = map ?m docs ! j" by simp
    also have "\<dots> = (Some (PInt (int j)), Some (PInt (int (length docs))))"
      using that by (simp only: eq) simp
    finally show ?thesis .
  qed
  have a: "map (\<lambda>d. map_of (metadata d) ''chunk_index'') docs
           = map (\<lambda>i. Some (PInt (int i))) [0..<length docs]"
    by (rule nth_equalityI) (use nth in auto)
  have b: "\<forall>d\<in>set docs. map_of (metadata d) ''total_chunks'' = Some (PInt (int (length docs)))"
    using nth by (auto simp: in_set_conv_nth)
  have c: "\<forall>d\<in>set docs. \<exists>i. map_of (metadata d) ''chunk_index'' = Some (PInt i)
              \<and> 0 \<le> i \<and> i < int (length docs)"
    using nth by (auto simp: in_set_conv_nth)
  from a b c show ?thesis by blast
qed

text \<open>
  Claim C5. \<open>process_file\<close> never raises: it always returns a document list, and the list
  is empty when the file cannot be read, when the splitter raises, and when the tokenizer
  raises on any chunk.
\<close>

theorem process_file_never_raises:
  "(\<exists>docs. process_file env f = Inr docs)
   \<and> (\<forall>e. read_text env f = Inl e \<longrightarrow> process_file env f = Inr [])
   \<and> (\<forall>content e. read_text env f = Inr content \<and> split_text env 1000 100 content = Inl e
        \<longrightarrow> process_file env f = Inr [])
   \<and> (\<forall>content chunks chunk e.
        read_text env f = Inr content \<and> split_text env 1000 100 content = Inr chunks
        \<and> chunk \<in> set chunks \<and> encode env chunk = Inl e
        \<longrightarrow> process_file env f = Inr [])"
proof (intro conjI allI impI)
  show "\<exists>docs. process_file env f = Inr docs"
    by (simp add: process_file_def split: sum.splits)
next
  fix e assume "read_text env f = Inl e"
  then show "process_file env f = Inr []"
    by (simp add: process_file_def process_file_body_def load_file_content_def)
next
  fix content e
  assume "read_text env f = Inr content \<and> split_text env 1000 100 content = Inl e"
  then show "process_file env f = Inr []"
    by (simp add: process_file_def process_file_body_def load_file_content_def chunk_content_def)
next
  fix content chunks chunk e
  assume a: "read_text env f = Inr content \<and> split_text env 1000 100 content = Inr chunks
        \<and> chunk \<in> set chunks \<and> encode env chunk = Inl e"
  then have "chunk \<in> set chunks" by simp
  from set_enumerate[OF this] obtain i where i: "(i, chunk) \<in> set (enumerate chunks)" ..
  from a have "encode env chunk = Inl e" by simp
  from process_chunks_raises[OF i this, of f "length chunks" "[]"] obtain e' where
    "process_chunks env f (length chunks) (enumerate chunks) [] = Inl e'" ..
  with a show "process_file env f = Inr []"
    by (simp add: process_file_def process_file_body_def load_file_content_def chunk_content_def)
qed

lemmas loader_eval =
  process_file_def process_file_body_def load_file_content_def chunk_content_def
  enumerate_def create_enhanced_metadata_def source_path_def root_marker_def
  identify_file_type_def FILE_TYPE_PATTERNS_def add_contextual_prefix_def
  pure_posix_name_def asdict_def str_int_def

text \<open>Witness for C3: a file of four characters split into two chunks.\<close>

theorem chunk_index_range_witness:
  "process_file
      \<lparr>read_text = (\<lambda>p. Inr ''abcd''), encode = (\<lambda>s. Inr (map of_char s)),
        split_text = (\<lambda>size overlap s. Inr [take 2 s, drop 2 s])\<rparr>
      \<lparr>path_parts = [''docs'', ''a.md''], path_name = ''a.md'', path_str = ''docs/a.md''\<rparr>
    = Inr [\<lparr>page_content = ''[File: a.md | Type: documentation | Part 1 of 2]''
                @ [CHR 0x5C, CHR ''n'', CHR 0x5C, CHR ''n''] @ ''ab'',
             metadata = [(''source'', PStr ''docs/a.md''), (''file_type'', PStr ''documentation''),
                (''token_count'', PInt 2), (''chunk_index'', PInt 0), (''total_chunks'', PInt 2)]\<rparr>,
           \<lparr>page_content = ''[File: a.md | Type: documentation | Part 2 of 2]''
                @ [CHR 0x5C, CHR ''n'', CHR 0x5C, CHR ''n''] @ ''cd'',
             metadata = [(''source'', PStr ''docs/a.md''), (''file_type'', PStr ''documentation''),
                (''token_count'', PInt 2), (''chunk_index'', PInt 1), (''total_chunks'', PInt 2)]\<rparr>]
   \<and> map (\<lambda>d. map_of (metadata d) ''chunk_index'')
        [\<lparr>page_content = ''[File: a.md | Type: documentation | Part 1 of 2]''
                @ [CHR 0x5C, CHR ''n'', CHR 0x5C, CHR ''n''] @ ''ab'',
             metadata = [(''source'', PStr ''docs/a.md''), (''file_type'', PStr ''documentation''),
                (''token_count'', PInt 2), (''chunk_index'', PInt 0), (''total_chunks'', PInt 2)]\<rparr>,
           \<lparr>page_content = ''[File: a.md | Type: documentation | Part 2 of 2]''
                @ [CHR 0x5C, CHR ''n'', CHR 0x5C, CHR ''n''] @ ''cd'',
             metadata = [(''source'', PStr ''docs/a.md''), (''file_type'', PStr ''documentation''),
                (''token_count'', PInt 2), (''chunk_index'', PInt 1), (''total_chunks'', PInt 2)]\<rparr>]
     = [Some (PInt 0), Some (PInt 1)]"
  (is "?p = Inr ?docs \<and> ?m")
proof -
  have e: "?p = Inr ?docs"
    by (simp add: loader_eval str_nat.simps)
  from chunk_index_range[OF e] have ?m
    by (simp add: upt_rec)
  with e show ?thesis by blast
qed

text \<open>
  Witness for C5: a file that cannot be opened, and a file whose second chunk the tokenizer
  rejects; both give the empty list.
\<close>

theorem process_file_never_raises_witness:
  "read_text \<lparr>read_text = (\<lambda>p. Inl (OSError ''No such file or directory'')),
        encode = (\<lambda>s. Inr []), split_text = (\<lambda>size overlap s. Inr [s])\<rparr>
      \<lparr>path_parts = [''a.md''], path_name = ''a.md'', path_str = ''a.md''\<rparr>
     = Inl (OSError ''No such file or directory'')
   \<and> process_file \<lparr>read_text = (\<lambda>p. Inl (OSError ''No such file or directory'')),
        encode = (\<lambda>s. Inr []), split_text = (\<lambda>size overlap s. Inr [s])\<rparr>
      \<lparr>path_parts = [''a.md''], path_name = ''a.md'', path_str = ''a.md''\<rparr> = Inr []
   \<and> ''cd'' \<in> set [''ab'', ''cd'']
   \<and> encode \<lparr>read_text = (\<lambda>p. Inr ''abcd''),
        encode = (\<lambda>s. if s = ''cd'' then Inl (ValueError ''disallowed special token'') else Inr []),
        split_text = (\<lambda>size overlap s. Inr [take 2 s, drop 2 s])\<rparr> ''cd''
     = Inl (ValueError ''disallowed special token'')
   \<and> process_file \<lparr>read_text = (\<lambda>p. Inr ''abcd''),
        encode = (\<lambda>s. if s = ''cd'' then Inl (ValueError ''disallowed special token'') else Inr []),
        split_text = (\<lambda>size overlap s. Inr [take 2 s, drop 2 s])\<rparr>
      \<lparr>path_parts = [''a.md''], path_name = ''a.md'', path_str = ''a.md''\<rparr> = Inr []"
proof -
  let ?f = "\<lparr>path_parts = [''a.md''], path_name = ''a.md'', path_str = ''a.md''\<rparr>"
  let ?env1 = "\<lparr>read_text = (\<lambda>p. Inl (OSError ''No such file or directory'')),
        encode = (\<lambda>s. Inr []), split_text = (\<lambda>size overlap s. Inr [s])\<rparr>"
  let ?env2 = "\<lparr>read_text = (\<lambda>p. Inr ''abcd''),
        encode = (\<lambda>s. if s = ''cd'' then Inl (ValueError ''disallowed special token'') else Inr []),
        split_text = (\<lambda>size overlap s. Inr [take 2 s, drop 2 s])\<rparr>"
  have r1: "read_text ?env1 ?f = Inl (OSError ''No such file or directory'')" by simp
  from process_file_never_raises[of ?env1 ?f, THEN conjunct2, THEN conjunct1, rule_format, OF r1]
  have p1: "process_file ?env1 ?f = Inr []" .
  have h2: "read_text ?env2 ?f = Inr ''abcd'' \<and> split_text ?env2 1000 100 ''abcd'' = Inr [''ab'', ''cd'']
        \<and> ''cd'' \<in> set [''ab'', ''cd'']
        \<and> encode ?env2 ''cd'' = Inl (ValueError ''disallowed special token'')"
    by simp
  from process_file_never_raises[of ?env2 ?f, THEN conjunct2, THEN conjunct2, THEN conjunct2,
      rule_format, OF h2]
  have p2: "process_file ?env2 ?f = Inr []" .
  from r1 p1 p2 h2 show ?thesis by simp
qed

section \<open>Contextual prefix and export: evaluation\<close>

text \<open>
  Claim C4, which the code does not meet. For the chunk \<^verbatim>\<open>x\<close> of the single-chunk file
  \<^verbatim>\<open>a.cs\<close> the claim asks for the descriptor \<^verbatim>\<open>[File: a.cs | Type: csharp]\<close>, a blank line
  (two line feeds) and the chunk. \<open>add_contextual_prefix\<close> returns the descriptor, the four
  characters backslash, \<^verbatim>\<open>n\<close>, backslash, \<^verbatim>\<open>n\<close>, and the chunk; the result holds no line
  feed at all.
\<close>

theorem add_contextual_prefix_no_blank_line:
  "add_contextual_prefix ''x''
      \<lparr>source = ''a.cs'', file_type = ''csharp'', token_count = 1,
        chunk_index = 0, total_chunks = 1\<rparr>
     = ''[File: a.cs | Type: csharp]'' @ [CHR 0x5C, CHR ''n'', CHR 0x5C, CHR ''n''] @ ''x''
   \<and> add_contextual_prefix ''x''
      \<lparr>source = ''a.cs'', file_type = ''csharp'', token_count = 1,
        chunk_index = 0, total_chunks = 1\<rparr>
     \<noteq> ''[File: a.cs | Type: csharp]'' @ [CHR 0x0A, CHR 0x0A] @ ''x''
   \<and> CHR 0x0A \<notin> set (add_contextual_prefix ''x''
      \<lparr>source = ''a.cs'', file_type = ''csharp'', token_count = 1,
        chunk_index = 0, total_chunks = 1\<rparr>)"
  by (simp add: add_contextual_prefix_def pure_posix_name_def)

text \<open>
  Claim C8, which the code does not meet. Exported as \<^verbatim>\<open>jsonl\<close>, two documents should give
  one JSON object per line. \<open>export_documents\<close> ends each object with the two characters
  backslash and \<^verbatim>\<open>n\<close> instead of a line feed, so the file written for two documents is a
  single line.
\<close>

theorem export_jsonl_single_line:
  "export_documents
      [\<lparr>page_content = ''a'', metadata = []\<rparr>, \<lparr>page_content = ''b'', metadata = []\<rparr>] ''jsonl''
     = Some ([CHR ''{'', CHR 0x22] @ ''page_content'' @ [CHR 0x22] @ '': '' @ [CHR 0x22] @ ''a''
             @ [CHR 0x22] @ '', '' @ [CHR 0x22] @ ''metadata'' @ [CHR 0x22] @ '': {}}''
             @ [CHR 0x5C, CHR ''n'']
             @ [CHR ''{'', CHR 0x22] @ ''page_content'' @ [CHR 0x22] @ '': '' @ [CHR 0x22] @ ''b''
             @ [CHR 0x22] @ '', '' @ [CHR 0x22] @ ''metadata'' @ [CHR 0x22] @ '': {}}''
             @ [CHR 0x5C, CHR ''n''])
   \<and> length (file_lines (the (export_documents
        [\<lparr>page_content = ''a'', metadata = []\<rparr>, \<lparr>page_content = ''b'', metadata = []\<rparr>]
        ''jsonl''))) = 1"
  by (simp add: export_documents_def doc_data_def encode_basestring_def escape_char_def
      file_lines_def)

section \<open>Vector store manager: properties\<close>




lemma add_document_Inr:
  assumes "add_document self doc_id text embedding md_opt db = Inr (r, db')"
  shows "\<exists>emb. upsert (client self) (collection_name self)
          [\<lparr>point_id = doc_id, vector = emb,
             payload = (case md_opt of None \<Rightarrow> Map.empty | Some m \<Rightarrow> m)(''document'' \<mapsto> PStr text)\<rparr>] db
        = Inr db' \<and> r = doc_id"
proof -
  let ?md = "case md_opt of None \<Rightarrow> Map.empty | Some m \<Rightarrow> m"
  let ?e = "case embedding of
              None \<Rightarrow> create_embedding self text ''text-embedding-3-large''
            | Some v \<Rightarrow> Inr v"
  show ?thesis
  proof (cases ?e)
    case (Inl e)
    with assms show ?thesis by (simp add: add_document_def)
  next
    case (Inr emb)
    let ?p = "\<lparr>point_id = doc_id, vector = emb, payload = ?md(''document'' \<mapsto> PStr text)\<rparr>"
    show ?thesis
    proof (cases "upsert (client self) (collection_name self) [?p] db")
      case (Inl e)
      with Inr assms show ?thesis by (simp add: add_document_def)
    next
      case u: (Inr d)
      with Inr assms have "d = db'" "r = doc_id" by (simp_all add: add_document_def)
      with u show ?thesis by blast
    qed
  qed
qed

text \<open>
  Claim C10. When \<open>add_document\<close> returns, it returns \<open>doc_id\<close>, and the point stored for
  \<open>doc_id\<close> in the collection has as payload the caller's metadata (the empty dictionary
  when none is given) extended with \<^verbatim>\<open>document\<close> mapped to the text: the key \<^verbatim>\<open>document\<close>
  holds the text, whatever the metadata held there, and every other key is the caller's.
  The store is observed through any \<open>lookup\<close> for which \<^verbatim>\<open>upsert\<close> of one point makes that
  point the one found under its id.
\<close>

theorem add_document_payload:
  assumes "add_document self doc_id text embedding md_opt db = Inr (r, db')"
    and "\<forall>name p d d'. upsert (client self) name [p] d = Inr d' \<longrightarrow>
            lookup d' name (point_id p) = Some p"
  shows "r = doc_id
       \<and> (\<exists>p. lookup db' (collection_name self) doc_id = Some p
            \<and> payload p = (case md_opt of None \<Rightarrow> Map.empty | Some m \<Rightarrow> m)
                              ++ [''document'' \<mapsto> PStr text]
            \<and> payload p ''document'' = Some (PStr text)
            \<and> (\<forall>k. k \<noteq> ''document'' \<longrightarrow>
                  payload p k = (case md_opt of None \<Rightarrow> None | Some m \<Rightarrow> m k)))"
proof -
  let ?md = "case md_opt of None \<Rightarrow> Map.empty | Some m \<Rightarrow> m"
  from add_document_Inr[OF assms(1)] obtain emb where
    u: "upsert (client self) (collection_name self)
          [\<lparr>point_id = doc_id, vector = emb, payload = ?md(''document'' \<mapsto> PStr text)\<rparr>] db
        = Inr db'"
    and r: "r = doc_id"
    by blast
  let ?p = "\<lparr>point_id = doc_id, vector = emb, payload = ?md(''document'' \<mapsto> PStr text)\<rparr>"
  from assms(2) u have l: "lookup db' (collection_name self) doc_id = Some ?p" by fastforce
  have a: "payload ?p = ?md ++ [''document'' \<mapsto> PStr text]" by simp
  have b: "payload ?p ''document'' = Some (PStr text)" by simp
  have c: "\<forall>k. k \<noteq> ''document'' \<longrightarrow>
                  payload ?p k = (case md_opt of None \<Rightarrow> None | Some m \<Rightarrow> m k)"
    by (cases md_opt) simp_all
  from l a b c have "\<exists>p. lookup db' (collection_name self) doc_id = Some p
            \<and> payload p = ?md ++ [''document'' \<mapsto> PStr text]
            \<and> payload p ''document'' = Some (PStr text)
            \<and> (\<forall>k. k \<noteq> ''document'' \<longrightarrow>
                  payload p k = (case md_opt of None \<Rightarrow> None | Some m \<Rightarrow> m k))"
    by (intro exI[of _ ?p] conjI)
  with r show ?thesis by (rule conjI)
qed

lemma store_client_upsert:
  "upsert store_client name [p] d = Inr d' \<Longrightarrow>
   (case d' name of None \<Rightarrow> None | Some c \<Rightarrow> c (point_id p)) = Some p"
  by (auto simp: store_client_def split: option.splits)

text \<open>
  Witness for C10, on the store of the specification: metadata that already has a
  \<^verbatim>\<open>document\<close> key, whose value is replaced.
\<close>

theorem add_document_payload_witness:
  "add_document
      \<lparr>client = store_client, collection_name = ''documents'', vector_size = 3072,
        embeddings_client = None\<rparr>
      ''id-1'' ''new'' (Some ())
      (Some [''source'' \<mapsto> PStr ''a.cs'', ''document'' \<mapsto> PStr ''old''])
      [''documents'' \<mapsto> Map.empty]
    = Inr (''id-1'',
        [''documents'' \<mapsto>
           [''id-1'' \<mapsto> \<lparr>point_id = ''id-1'', vector = (),
               payload = [''source'' \<mapsto> PStr ''a.cs'', ''document'' \<mapsto> PStr ''new'']\<rparr>]])
   \<and> (\<exists>p. [''id-1'' \<mapsto> \<lparr>point_id = ''id-1'', vector = (),
               payload = [''source'' \<mapsto> PStr ''a.cs'', ''document'' \<mapsto> PStr ''new'']\<rparr>] ''id-1''
            = Some p
          \<and> payload p ''document'' = Some (PStr ''new'')
          \<and> payload p ''source'' = Some (PStr ''a.cs''))"
proof -
  let ?self = "\<lparr>client = store_client, collection_name = ''documents'', vector_size = 3072,
        embeddings_client = None\<rparr> :: (unit store, unit) VectorDBManager"
  let ?md = "[''source'' \<mapsto> PStr ''a.cs'', ''document'' \<mapsto> PStr ''old'']"
  let ?db' = "[''documents'' \<mapsto>
           [''id-1'' \<mapsto> \<lparr>point_id = ''id-1'', vector = (),
               payload = [''source'' \<mapsto> PStr ''a.cs'', ''document'' \<mapsto> PStr ''new'']\<rparr>]]"
  let ?lookup = "\<lambda>(d :: unit store) name i. case d name of None \<Rightarrow> None | Some c \<Rightarrow> c i"
  have e: "add_document ?self ''id-1'' ''new'' (Some ()) (Some ?md) [''documents'' \<mapsto> Map.empty]
           = Inr (''id-1'', ?db')"
    by (simp add: add_document_def store_client_def)
  have c: "\<forall>name p d d'. upsert (client ?self) name [p] d = Inr d' \<longrightarrow>
            ?lookup d' name (point_id p) = Some p"
    by (simp add: store_client_upsert)
  from add_document_payload[of ?self "''id-1''" "''new''" "Some ()" "Some ?md"
      "[''documents'' \<mapsto> Map.empty]" "''id-1''" ?db' ?lookup, OF e c]
  have "\<exists>p. ?lookup ?db' ''documents'' ''id-1'' = Some p
          \<and> payload p ''document'' = Some (PStr ''new'')
          \<and> payload p ''source'' = Some (PStr ''a.cs'')"
    by auto
  with e show ?thesis by simp
qed

end
